theory Spec2Isabelle
  imports Main
begin

section \<open>Python values and exceptions\<close>

text \<open>
  The agent result handed to \<open>_extract_assistant_text\<close> is typed \<open>Any\<close>. The values
  modelled are the data values a transcript is made of: \<open>None\<close>, booleans, integers,
  strings, lists, dicts with string keys (an association list, looked up with
  \<open>map_of\<close>; a dict has each key once) and plain attribute-bearing objects (the
  message objects of the reasoning engine), given by their attributes.
\<close>

datatype pyval =
    PyNone
  | PyBool bool
  | PyInt int
  | PyStr string
  | PyList "pyval list"
  | PyDict "(string \<times> pyval) list"
  | PyObj "(string \<times> pyval) list"

text \<open>
  Exception classes. \<open>CancelledError\<close> (of asyncio), \<open>KeyboardInterrupt\<close> and
  \<open>SystemExit\<close> derive from \<open>BaseException\<close> only; every other class derives from
  \<open>Exception\<close>. A raised exception carries its class and its \<open>str()\<close>.
\<close>

datatype exc_class =
    TypeError
  | ValueError
  | ZoneInfoNotFoundError
  | RuntimeError
  | OtherException string
  | CancelledError
  | KeyboardInterrupt
  | SystemExit

datatype exn = Raised (exc_cls: exc_class) (exc_str: string)

fun derives_Exception :: "exc_class \<Rightarrow> bool" where
  "derives_Exception CancelledError = False"
| "derives_Exception KeyboardInterrupt = False"
| "derives_Exception SystemExit = False"
| "derives_Exception _ = True"

text \<open>
  \<open>try: body  except Exception as e: handler\<close>. An exception whose class does not
  derive from \<open>Exception\<close> passes through the handler.
\<close>

definition except_Exception :: "exn + 'a \<Rightarrow> (exn \<Rightarrow> exn + 'a) \<Rightarrow> exn + 'a" where
  "except_Exception body handler =
     (case body of
        Inr v \<Rightarrow> Inr v
      | Inl e \<Rightarrow> if derives_Exception (exc_cls e) then handler e else Inl e)"

text \<open>Truth value testing (\<open>if x\<close>, \<open>x or y\<close>, \<open>x and y\<close>).\<close>

fun truthy :: "pyval \<Rightarrow> bool" where
  "truthy PyNone = False"
| "truthy (PyBool b) = b"
| "truthy (PyInt i) = (i \<noteq> 0)"
| "truthy (PyStr s) = (s \<noteq> [])"
| "truthy (PyList xs) = (xs \<noteq> [])"
| "truthy (PyDict kvs) = (kvs \<noteq> [])"
| "truthy (PyObj attrs) = True"

definition py_or :: "pyval \<Rightarrow> pyval \<Rightarrow> pyval" where
  "py_or a b = (if truthy a then a else b)"

text \<open>
  \<open>getattr(x, name, default)\<close> for the attribute names the source asks for
  (\<open>content\<close> and \<open>type\<close>), which no built-in value has: only an object answers.
\<close>

fun getattr :: "pyval \<Rightarrow> string \<Rightarrow> pyval \<Rightarrow> pyval" where
  "getattr (PyObj attrs) name d = (case map_of attrs name of Some v \<Rightarrow> v | None \<Rightarrow> d)"
| "getattr _ name d = d"

text \<open>\<open>d.get(key, default)\<close> on a dict.\<close>

definition dict_get :: "(string \<times> pyval) list \<Rightarrow> string \<Rightarrow> pyval \<Rightarrow> pyval" where
  "dict_get kvs key d = (case map_of kvs key of Some v \<Rightarrow> v | None \<Rightarrow> d)"

text \<open>
  \<open>reversed(x)\<close>: a list in reverse, a string as its one-character strings in
  reverse, a dict as its keys in reverse; anything else raises \<open>TypeError\<close>.
\<close>

fun reversed :: "pyval \<Rightarrow> exn + pyval list" where
  "reversed (PyList xs) = Inr (rev xs)"
| "reversed (PyStr s) = Inr (rev (map (\<lambda>c. PyStr [c]) s))"
| "reversed (PyDict kvs) = Inr (rev (map (\<lambda>kv. PyStr (fst kv)) kvs))"
| "reversed _ = Inl (Raised TypeError ''object is not reversible'')"

section \<open>The result extractor\<close>

text \<open>
  \<^verbatim>\<open>
  def _extract_assistant_text(self, result: Any) -> str:
      try:
          messages = result.get("messages", []) if isinstance(result, dict) else []
          for msg in reversed(messages):
              content = getattr(msg, "content", None) or (msg.get("content") if isinstance(msg, dict) else None)
              mtype = getattr(msg, "type", None) or (msg.get("type") if isinstance(msg, dict) else None)
              if mtype in ("ai", "assistant") and content:
                  return content
      except Exception:
          logger.exception("Failed to extract assistant text from result")
      return "I apologize, but I couldn't process your request."
  \<close>
\<close>

definition fallback_text :: string where
  "fallback_text = ''I apologize, but I couldn't process your request.''"

definition messages_of :: "pyval \<Rightarrow> pyval" where
  "messages_of result =
     (case result of PyDict kvs \<Rightarrow> dict_get kvs ''messages'' (PyList []) | _ \<Rightarrow> PyList [])"

definition msg_field :: "string \<Rightarrow> pyval \<Rightarrow> pyval" where
  "msg_field name msg =
     py_or (getattr msg name PyNone)
           (case msg of PyDict kvs \<Rightarrow> dict_get kvs name PyNone | _ \<Rightarrow> PyNone)"

definition msg_content :: "pyval \<Rightarrow> pyval" where
  "msg_content msg = msg_field ''content'' msg"

definition msg_mtype :: "pyval \<Rightarrow> pyval" where
  "msg_mtype msg = msg_field ''type'' msg"

text \<open>The loop body's test: \<open>mtype in ("ai", "assistant") and content\<close>.\<close>

definition returns_here :: "pyval \<Rightarrow> bool" where
  "returns_here msg =
     ((msg_mtype msg = PyStr ''ai'' \<or> msg_mtype msg = PyStr ''assistant'')
      \<and> truthy (msg_content msg))"

text \<open>
  The \<open>for\<close> loop over the reversed messages: \<open>Some content\<close> when it returns from
  inside, \<open>None\<close> when it runs to the end.
\<close>

fun scan_messages :: "pyval list \<Rightarrow> pyval option" where
  "scan_messages [] = None"
| "scan_messages (msg # rest) =
     (if returns_here msg then Some (msg_content msg) else scan_messages rest)"

definition extract_body :: "pyval \<Rightarrow> exn + pyval option" where
  "extract_body result =
     (case reversed (messages_of result) of
        Inl e \<Rightarrow> Inl e
      | Inr msgs \<Rightarrow> Inr (scan_messages msgs))"

definition extract_assistant_text :: "pyval \<Rightarrow> exn + pyval" where
  "extract_assistant_text result =
     (case except_Exception (extract_body result) (\<lambda>e. Inr None) of
        Inl e \<Rightarrow> Inl e
      | Inr (Some text) \<Rightarrow> Inr text
      | Inr None \<Rightarrow> Inr (PyStr fallback_text))"

text \<open>
  The extractor as the specification words it, written on the two shapes of a message
  and not through the accessors of the code. A message carries a type tag and a content:
  the attributes \<open>type\<close> and \<open>content\<close> of an object, or the keys \<open>type\<close> and \<open>content\<close> of
  a key/value record; anything else carries neither.
\<close>

fun field_of :: "pyval \<Rightarrow> string \<Rightarrow> pyval option" where
  "field_of (PyObj attrs) name = map_of attrs name"
| "field_of (PyDict kvs) name = map_of kvs name"
| "field_of _ name = None"

text \<open>The tag marks a message as assistant-authored when it is \<open>ai\<close> or \<open>assistant\<close>.\<close>

definition assistant_authored :: "pyval \<Rightarrow> bool" where
  "assistant_authored msg =
     (field_of msg ''type'' = Some (PyStr ''ai'')
      \<or> field_of msg ''type'' = Some (PyStr ''assistant''))"

text \<open>
  Non-empty content: a text other than the empty string; for a content that is not a
  text, a value that is not \<open>None\<close>, \<open>False\<close>, zero, an empty list or an empty record.
\<close>

fun non_empty :: "pyval \<Rightarrow> bool" where
  "non_empty (PyStr s) = (0 < length s)"
| "non_empty (PyList xs) = (0 < length xs)"
| "non_empty (PyDict kvs) = (0 < length kvs)"
| "non_empty (PyInt i) = (i < 0 \<or> 0 < i)"
| "non_empty (PyBool b) = b"
| "non_empty (PyObj attrs) = True"
| "non_empty PyNone = False"

definition has_content :: "pyval \<Rightarrow> bool" where
  "has_content msg = (case field_of msg ''content'' of Some c \<Rightarrow> non_empty c | None \<Rightarrow> False)"

text \<open>
  Scan from the most recent message to the oldest; the first assistant-authored message
  with non-empty content gives its content; when there is none, the fallback string.
\<close>

definition extractReply_spec :: "pyval list \<Rightarrow> pyval" where
  "extractReply_spec msgs =
     (case find (\<lambda>m. assistant_authored m \<and> has_content m) (rev msgs) of
        Some m \<Rightarrow> (case field_of m ''content'' of Some c \<Rightarrow> c | None \<Rightarrow> PyStr fallback_text)
      | None \<Rightarrow> PyStr fallback_text)"

text \<open>A message has a field when it is an object with that attribute or a dict with that key.\<close>

fun has_field :: "pyval \<Rightarrow> string \<Rightarrow> bool" where
  "has_field (PyObj attrs) name = (map_of attrs name \<noteq> None)"
| "has_field (PyDict kvs) name = (map_of kvs name \<noteq> None)"
| "has_field _ name = False"

section \<open>Formatting\<close>

text \<open>\<open>str(n)\<close> of an integer, as an f-string renders it: decimal, with a leading minus sign.\<close>

definition digit_char :: "nat \<Rightarrow> char" where
  "digit_char d = ''0123456789'' ! d"

fun str_nat :: "nat \<Rightarrow> string" where
  "str_nat n = (if n < 10 then [digit_char n] else str_nat (n div 10) @ [digit_char (n mod 10)])"

declare str_nat.simps [simp del]

definition str_int :: "int \<Rightarrow> string" where
  "str_int i = (if i < 0 then CHR ''-'' # str_nat (nat (- i)) else str_nat (nat i))"

text \<open>\<open>sep.join(parts)\<close>.\<close>

fun join :: "string \<Rightarrow> string list \<Rightarrow> string" where
  "join sep [] = []"
| "join sep [x] = x"
| "join sep (x # y # ys) = x @ sep @ join sep (y # ys)"

section \<open>The time utility\<close>




section \<open>The task tools\<close>

text \<open>
  Modelled from the spec: the \<open>Task\<close> model (module \<open>models\<close> is not among the
  sources): a task has an integer id, a title and a completion flag. The tools read
  \<open>task.id\<close>, \<open>task.title\<close> and \<open>task.isComplete\<close>; the field \<open>id\<close> is \<open>task_id\<close> here,
  as \<open>id\<close> is the identity function of HOL.
\<close>

record Task =
  task_id :: int
  title :: string
  isComplete :: bool

text \<open>
  The task service (module \<open>services\<close>) is an external collaborator: its operations
  are parameters of the tools. Each one runs on the store \<open>'s\<close>, returns its answer
  or raises, and leaves the store as it made it.
\<close>

record 's TaskService =
  add_task :: "string \<Rightarrow> bool \<Rightarrow> 's \<Rightarrow> (exn + Task) \<times> 's"
  get_all_tasks :: "'s \<Rightarrow> (exn + Task list) \<times> 's"
  get_task_by_id :: "int \<Rightarrow> 's \<Rightarrow> (exn + Task option) \<times> 's"
  update_task :: "int \<Rightarrow> string option \<Rightarrow> bool option \<Rightarrow> 's \<Rightarrow> (exn + Task option) \<times> 's"
  delete_task :: "int \<Rightarrow> 's \<Rightarrow> (exn + bool) \<times> 's"

definition status_text :: "bool \<Rightarrow> string" where
  "status_text c = (if c then ''Complete'' else ''Incomplete'')"

definition create_task ::
  "'s TaskService \<Rightarrow> string \<Rightarrow> bool \<Rightarrow> 's \<Rightarrow> (exn + string) \<times> 's" where
  "create_task svc ttl c store =
     (case add_task svc ttl c store of
        (Inl e, store') \<Rightarrow> (Inl e, store')
      | (Inr task, store') \<Rightarrow>
          (Inr (''Task created successfully: '' @ [CHR 0x22] @ title task @ [CHR 0x22]
                @ '' (ID: '' @ str_int (task_id task) @ '')''), store'))"

definition task_line :: "Task \<Rightarrow> string" where
  "task_line t =
     ''- '' @ str_int (task_id t) @ '': '' @ title t @ '' ('' @ status_text (isComplete t) @ '')''"

definition get_tasks :: "'s TaskService \<Rightarrow> 's \<Rightarrow> (exn + string) \<times> 's" where
  "get_tasks svc store =
     (case get_all_tasks svc store of
        (Inl e, store') \<Rightarrow> (Inl e, store')
      | (Inr tasks, store') \<Rightarrow>
          (if tasks = [] then (Inr ''No tasks found.'', store')
           else (Inr (''Found '' @ str_nat (length tasks) @ '' tasks:'' @ [CHR 0x0A]
                      @ join [CHR 0x0A] (map task_line tasks)), store')))"

definition get_task :: "'s TaskService \<Rightarrow> int \<Rightarrow> 's \<Rightarrow> (exn + string) \<times> 's" where
  "get_task svc i store =
     (case get_task_by_id svc i store of
        (Inl e, store') \<Rightarrow> (Inl e, store')
      | (Inr None, store') \<Rightarrow> (Inr (''Task with ID '' @ str_int i @ '' not found.''), store')
      | (Inr (Some task), store') \<Rightarrow>
          (Inr (''Task '' @ str_int (task_id task) @ '': '' @ [CHR 0x22] @ title task @ [CHR 0x22]
                @ '' - Status: '' @ status_text (isComplete task)), store'))"

definition update_task_tool ::
  "'s TaskService \<Rightarrow> int \<Rightarrow> string option \<Rightarrow> bool option \<Rightarrow> 's \<Rightarrow> (exn + string) \<times> 's" where
  "update_task_tool svc i ttl c store =
     (case update_task svc i ttl c store of
        (Inl e, store') \<Rightarrow> (Inl e, store')
      | (Inr None, store') \<Rightarrow> (Inr (''Task with ID '' @ str_int i @ '' not found.''), store')
      | (Inr (Some updated), store') \<Rightarrow>
          (Inr (''Task '' @ str_int i @ '' updated successfully.''), store'))"

definition delete_task_tool :: "'s TaskService \<Rightarrow> int \<Rightarrow> 's \<Rightarrow> (exn + string) \<times> 's" where
  "delete_task_tool svc i store =
     (case delete_task svc i store of
        (Inl e, store') \<Rightarrow> (Inl e, store')
      | (Inr deleted, store') \<Rightarrow>
          (if \<not> deleted then (Inr (''Task with ID '' @ str_int i @ '' not found.''), store')
           else (Inr (''Task '' @ str_int i @ '' deleted successfully.''), store')))"

section \<open>The agent orchestrator\<close>

text \<open>
  Modelled from the spec: \<open>ChatMessage\<close> and \<open>Role\<close> (module \<open>models\<close> is not among
  the sources): a reply is a role tag and a content, and the role of every reply built
  here is \<open>Role.ASSISTANT\<close>, whose value is the string \<open>assistant\<close>. The content is
  the value \<open>process_message\<close> passes to the constructor.
\<close>

datatype Role = USER | ASSISTANT

fun Role_value :: "Role \<Rightarrow> string" where
  "Role_value USER = ''user''"
| "Role_value ASSISTANT = ''assistant''"

record ChatMessage =
  role :: Role
  content :: pyval

text \<open>
  The reasoning engine (\<open>self.agent\<close>, built by \<open>create_react_agent\<close>) is opaque:
  \<open>ainvoke\<close> takes the message and the thread id, runs on the checkpointer memory \<open>'m\<close>
  and, through the tools, on the task store \<open>'s\<close>, and returns a transcript or raises.
\<close>

type_synonym ('m, 's) engine = "string \<Rightarrow> string \<Rightarrow> 'm \<times> 's \<Rightarrow> (exn + pyval) \<times> ('m \<times> 's)"

text \<open>
  The fields of \<open>LangGraphTaskAgent\<close> (\<open>llm\<close>, which no method reads after
  construction, is left out). \<open>session_locks\<close> maps a session id to a lock, held or not.
  \<open>uuid_calls\<close> is not a field of the class: it counts the calls this object has made to
  \<open>uuid.uuid4()\<close>, the process-wide generator.
\<close>

record ('m, 's) LangGraphTaskAgent =
  task_service :: 's
  agent :: "('m, 's) engine option"
  memory :: 'm
  session_ids :: "string \<rightharpoonup> string"
  session_locks :: "string \<rightharpoonup> bool"
  uuid_calls :: nat

text \<open>
  \<open>__init__\<close>: the two environment variables, and the outcome of building the client
  and the agent (lines 80 to 103). A missing or empty variable leaves \<open>agent\<close> at
  \<open>None\<close>; so does a construction that raises, under \<open>except Exception\<close>.
\<close>

definition init ::
  "'s \<Rightarrow> 'm \<Rightarrow> string option \<Rightarrow> string option \<Rightarrow> (exn + ('m, 's) engine)
     \<Rightarrow> exn + ('m, 's) LangGraphTaskAgent" where
  "init svc mem endpoint deployment_name build =
     (let self = \<lparr>task_service = svc, agent = None, memory = mem,
                  session_ids = Map.empty, session_locks = Map.empty, uuid_calls = 0\<rparr>
      in except_Exception
           (if endpoint \<in> {None, Some []} \<or> deployment_name \<in> {None, Some []} then Inr self
            else (case build of
                    Inl e \<Rightarrow> Inl e
                  | Inr ag \<Rightarrow> Inr (self\<lparr>agent := Some ag\<rparr>)))
           (\<lambda>e. Inr self))"

text \<open>\<open>str(uuid.uuid4())\<close>: \<open>uuid4 n\<close> is the text of the \<open>n\<close>-th identifier drawn.\<close>

definition new_uuid ::
  "(nat \<Rightarrow> string) \<Rightarrow> ('m, 's) LangGraphTaskAgent \<Rightarrow> string \<times> ('m, 's) LangGraphTaskAgent" where
  "new_uuid uuid4 self = (uuid4 (uuid_calls self), self\<lparr>uuid_calls := Suc (uuid_calls self)\<rparr>)"

text \<open>
  Lines 209 to 215 of \<open>process_message\<close>, up to the \<open>await\<close>:
  \<^verbatim>\<open>
  if session_id:
      thread_id = self.session_ids.get(session_id)
      if not thread_id:
          thread_id = str(uuid.uuid4())
          self.session_ids[session_id] = thread_id
  else:
      thread_id = str(uuid.uuid4())
  \<close>
  \<open>if session_id\<close> is false for \<open>None\<close> and for the empty string.
\<close>

definition record_thread ::
  "(nat \<Rightarrow> string) \<Rightarrow> ('m, 's) LangGraphTaskAgent \<Rightarrow> string
     \<Rightarrow> string \<times> ('m, 's) LangGraphTaskAgent" where
  "record_thread uuid4 self sid =
     (case new_uuid uuid4 self of
        (thread_id, self') \<Rightarrow>
          (thread_id, self'\<lparr>session_ids := (session_ids self')(sid \<mapsto> thread_id)\<rparr>))"

definition resolve_thread ::
  "(nat \<Rightarrow> string) \<Rightarrow> ('m, 's) LangGraphTaskAgent \<Rightarrow> string option
     \<Rightarrow> string \<times> ('m, 's) LangGraphTaskAgent" where
  "resolve_thread uuid4 self session_id =
     (case session_id of
        None \<Rightarrow> new_uuid uuid4 self
      | Some sid \<Rightarrow>
          if sid = [] then new_uuid uuid4 self
          else (case session_ids self sid of
                  None \<Rightarrow> record_thread uuid4 self sid
                | Some thread_id \<Rightarrow>
                    if thread_id = [] then record_thread uuid4 self sid
                    else (thread_id, self)))"

definition not_configured_text :: string where
  "not_configured_text =
     ''LangGraph agent is not properly configured. Please check your Azure OpenAI settings.''"

definition error_text :: string where
  "error_text = ''I apologize, but I encountered an error processing your request.''"

text \<open>
  \<open>process_message\<close>: the reply or the exception that leaves the call, and the object
  after it. The engine's effects on the memory and the store stay when it raises.
\<close>

definition process_message ::
  "(nat \<Rightarrow> string) \<Rightarrow> ('m, 's) LangGraphTaskAgent \<Rightarrow> string \<Rightarrow> string option
     \<Rightarrow> (exn + ChatMessage) \<times> ('m, 's) LangGraphTaskAgent" where
  "process_message uuid4 self message session_id =
     (case agent self of
        None \<Rightarrow> (Inr \<lparr>role = ASSISTANT, content = PyStr not_configured_text\<rparr>, self)
      | Some ag \<Rightarrow>
          (case resolve_thread uuid4 self session_id of
             (thread_id, self1) \<Rightarrow>
               (case ag message thread_id (memory self1, task_service self1) of
                  (result, (mem, store)) \<Rightarrow>
                    (except_Exception
                       (case result of
                          Inl e \<Rightarrow> Inl e
                        | Inr transcript \<Rightarrow>
                            (case extract_assistant_text transcript of
                               Inl e \<Rightarrow> Inl e
                             | Inr response_content \<Rightarrow>
                                 Inr \<lparr>role = ASSISTANT, content = response_content\<rparr>))
                       (\<lambda>e. Inr \<lparr>role = ASSISTANT, content = PyStr error_text\<rparr>),
                     self1\<lparr>memory := mem, task_service := store\<rparr>))))"

text \<open>A sequence of calls, one after the other, on the same object.\<close>

fun run ::
  "(nat \<Rightarrow> string) \<Rightarrow> ('m, 's) LangGraphTaskAgent \<Rightarrow> (string \<times> string option) list
     \<Rightarrow> ('m, 's) LangGraphTaskAgent" where
  "run uuid4 self [] = self"
| "run uuid4 self (call # calls) =
     run uuid4 (snd (process_message uuid4 self (fst call) (snd call))) calls"

section \<open>Invariants of the session map\<close>

text \<open>
  What is asked of the identifier source: two draws never give the same text, and no
  text is empty (a UUID prints as 36 characters).
\<close>

definition uuid_ok :: "(nat \<Rightarrow> string) \<Rightarrow> bool" where
  "uuid_ok uuid4 = (inj uuid4 \<and> (\<forall>n. uuid4 n \<noteq> []))"

text \<open>
  Every stored thread id was drawn by this object, and no thread id is stored under two
  session ids.
\<close>

definition wf_sessions :: "(nat \<Rightarrow> string) \<Rightarrow> ('m, 's) LangGraphTaskAgent \<Rightarrow> bool" where
  "wf_sessions uuid4 self =
     ((\<forall>s t. session_ids self s = Some t \<longrightarrow> (\<exists>k < uuid_calls self. t = uuid4 k))
      \<and> (\<forall>s1 s2 t. session_ids self s1 = Some t \<and> session_ids self s2 = Some t \<longrightarrow> s1 = s2))"

text \<open>
  \<open>self'\<close> is a later state of \<open>self\<close>: the entries of \<open>self\<close> are still there, and
  every other entry holds a thread id drawn since.
\<close>

definition extends ::
  "(nat \<Rightarrow> string) \<Rightarrow> ('m, 's) LangGraphTaskAgent \<Rightarrow> ('m, 's) LangGraphTaskAgent \<Rightarrow> bool" where
  "extends uuid4 self self' =
     (uuid_calls self \<le> uuid_calls self'
      \<and> (\<forall>s t. session_ids self s = Some t \<longrightarrow> session_ids self' s = Some t)
      \<and> (\<forall>s t. session_ids self' s = Some t \<longrightarrow>
            session_ids self s = Some t
            \<or> (\<exists>k. uuid_calls self \<le> k \<and> k < uuid_calls self' \<and> t = uuid4 k)))"

section \<open>Instances for the witnesses\<close>

text \<open>
  An identifier source that meets \<open>uuid_ok\<close>, two engines (one echoes the message as an
  assistant message, one raises a given exception), an object built by hand, and one
  task service among those the tools are proved for: it keeps its tasks in a list,
  answers absent for an unknown id and \<open>False\<close> for a delete that finds nothing.
\<close>

definition example_uuid4 :: "nat \<Rightarrow> string" where
  "example_uuid4 n = replicate (Suc n) CHR ''u''"

definition echo_engine :: "(unit, unit) engine" where
  "echo_engine message thread_id w =
     (Inr (PyDict [(''messages'',
             PyList [PyDict [(''type'', PyStr ''human''), (''content'', PyStr message)],
                     PyObj [(''type'', PyStr ''ai''), (''content'', PyStr message)]])]), w)"

definition raising_engine :: "exn \<Rightarrow> (unit, unit) engine" where
  "raising_engine e message thread_id w = (Inl e, w)"

definition example_agent :: "(unit, unit) engine option \<Rightarrow> (unit, unit) LangGraphTaskAgent" where
  "example_agent ag =
     \<lparr>task_service = (), agent = ag, memory = (),
      session_ids = Map.empty, session_locks = Map.empty, uuid_calls = 0\<rparr>"

definition list_task_service :: "(Task list) TaskService" where
  "list_task_service =
     \<lparr>add_task = (\<lambda>ttl c store.
         (let t = \<lparr>task_id = 1 + foldr max (map task_id store) 0, title = ttl, isComplete = c\<rparr>
          in (Inr t, store @ [t]))),
      get_all_tasks = (\<lambda>store. (Inr store, store)),
      get_task_by_id = (\<lambda>i store. (Inr (find (\<lambda>t. task_id t = i) store), store)),
      update_task = (\<lambda>i ttl c store.
         (case find (\<lambda>t. task_id t = i) store of
            None \<Rightarrow> (Inr None, store)
          | Some t \<Rightarrow>
              (let t' = t\<lparr>title := (case ttl of None \<Rightarrow> title t | Some x \<Rightarrow> x),
                          isComplete := (case c of None \<Rightarrow> isComplete t | Some b \<Rightarrow> b)\<rparr>
               in (Inr (Some t'), map (\<lambda>u. if task_id u = i then t' else u) store)))),
      delete_task = (\<lambda>i store.
         (Inr (\<exists>t \<in> set store. task_id t = i), filter (\<lambda>t. task_id t \<noteq> i) store))\<rparr>"

section \<open>Properties of the result extractor\<close>

lemma non_empty_truthy: "non_empty v = truthy v"
  by (cases v) auto

lemma msg_field_obj:
  "msg_field name (PyObj attrs)
     = (case map_of attrs name of Some v \<Rightarrow> if truthy v then v else PyNone | None \<Rightarrow> PyNone)"
  by (simp add: msg_field_def py_or_def split: option.splits)

lemma msg_field_dict:
  "msg_field name (PyDict kvs) = (case map_of kvs name of Some v \<Rightarrow> v | None \<Rightarrow> PyNone)"
  by (simp add: msg_field_def py_or_def dict_get_def)

lemma msg_field_other:
  "field_of msg name = None \<Longrightarrow> msg_field name msg = PyNone"
  by (cases msg) (simp_all add: msg_field_def py_or_def dict_get_def)

text \<open>The test of the loop is the specification's test, and what it returns is the field.\<close>

lemma returns_here_spec:
  "returns_here msg = (assistant_authored msg \<and> has_content msg)"
proof (cases msg)
  case (PyObj attrs)
  then show ?thesis
    by (auto simp: returns_here_def assistant_authored_def has_content_def msg_mtype_def
        msg_content_def msg_field_obj non_empty_truthy split: option.splits if_splits)
next
  case (PyDict kvs)
  then show ?thesis
    by (auto simp: returns_here_def assistant_authored_def has_content_def msg_mtype_def
        msg_content_def msg_field_dict non_empty_truthy split: option.splits)
qed (simp_all add: returns_here_def assistant_authored_def has_content_def msg_mtype_def
      msg_content_def msg_field_other)

lemma msg_content_spec:
  assumes "has_content msg"
  shows "field_of msg ''content'' = Some (msg_content msg)"
proof (cases msg)
  case (PyObj attrs)
  with assms show ?thesis
    by (auto simp: has_content_def msg_content_def msg_field_obj non_empty_truthy
        split: option.splits)
next
  case (PyDict kvs)
  with assms show ?thesis
    by (auto simp: has_content_def msg_content_def msg_field_dict split: option.splits)
qed (use assms in \<open>simp_all add: has_content_def\<close>)

lemma scan_messages_find:
  "scan_messages msgs =
     map_option msg_content (find (\<lambda>m. assistant_authored m \<and> has_content m) msgs)"
  by (induction msgs) (simp_all add: returns_here_spec)

lemma msg_field_missing:
  "\<not> has_field msg name \<Longrightarrow> msg_field name msg = PyNone"
  by (cases msg) (simp_all add: msg_field_def py_or_def dict_get_def)

lemma scan_messages_no_fields:
  "\<forall>m \<in> set msgs. msg_mtype m = PyNone \<Longrightarrow> scan_messages msgs = None"
  by (induction msgs) (simp_all add: returns_here_def)

lemma extract_body_not_BaseException:
  "extract_body result = Inl e \<Longrightarrow> derives_Exception (exc_cls e)"
  by (cases "messages_of result") (auto simp: extract_body_def)



lemma extract_list:
  assumes "messages_of result = PyList msgs"
  shows "extract_assistant_text result = Inr (extractReply_spec msgs)"
proof (cases "find (\<lambda>m. assistant_authored m \<and> has_content m) (rev msgs)")
  case None
  with assms show ?thesis
    by (simp add: extract_assistant_text_def extract_body_def except_Exception_def
        scan_messages_find extractReply_spec_def)
next
  case (Some m)
  then have "has_content m" by (auto dest: find_Some_iff [THEN iffD1])
  then have "field_of m ''content'' = Some (msg_content m)" by (rule msg_content_spec)
  with Some assms show ?thesis
    by (simp add: extract_assistant_text_def extract_body_def except_Exception_def
        scan_messages_find extractReply_spec_def)
qed


lemma scan_strings:
  "scan_messages (map (\<lambda>x. PyStr (f x)) xs) = None"
  by (induction xs) (simp_all add: returns_here_def msg_mtype_def msg_field_def py_or_def)

lemma extract_not_list:
  assumes "\<And>msgs. messages_of result \<noteq> PyList msgs"
  shows "extract_assistant_text result = Inr (PyStr fallback_text)"
proof (cases "messages_of result")
  case (PyList xs)
  with assms [of xs] show ?thesis by simp
next
  case (PyStr s)
  have "scan_messages (rev (map (\<lambda>c. PyStr [c]) s)) = None"
    unfolding rev_map by (rule scan_strings)
  with PyStr show ?thesis
    by (simp add: extract_assistant_text_def extract_body_def except_Exception_def)
next
  case (PyDict kvs)
  have "scan_messages (rev (map (\<lambda>kv. PyStr (fst kv)) kvs)) = None"
    unfolding rev_map by (rule scan_strings)
  with PyDict show ?thesis
    by (simp add: extract_assistant_text_def extract_body_def except_Exception_def)
qed (simp_all add: extract_assistant_text_def extract_body_def except_Exception_def)

lemma extract_returns:
  "\<exists>v. extract_assistant_text result = Inr v"
proof (cases "\<exists>msgs. messages_of result = PyList msgs")
  case True
  then show ?thesis by (auto simp: extract_list)
next
  case False
  then have "extract_assistant_text result = Inr (PyStr fallback_text)"
    by (intro extract_not_list) blast
  then show ?thesis by blast
qed

lemmas field_defs = messages_of_def dict_get_def msg_mtype_def
  msg_content_def msg_field_def py_or_def

text \<open>
  Claim C3, as stated: on the transcript whose messages are the records
  \<open>{role: "user", content: "Hello"}\<close> and \<open>{role: "assistant", content: "This is the answer"}\<close>
  the extractor returns \<open>"This is the answer"\<close>. It does not: the extractor reads the
  key \<open>type\<close>, never \<open>role\<close>, so neither record is assistant-authored and the fallback
  string is returned.
\<close>

theorem extract_role_keyed_records_counterexample:
  "extract_assistant_text
     (PyDict [(''messages'', PyList
        [PyDict [(''role'', PyStr ''user''), (''content'', PyStr ''Hello'')],
         PyDict [(''role'', PyStr ''assistant''), (''content'', PyStr ''This is the answer'')]])])
   \<noteq> Inr (PyStr ''This is the answer'')"
  by (simp add: extract_assistant_text_def extract_body_def except_Exception_def field_defs
      returns_here_def fallback_text_def)

text \<open>
  Claim C3, amended: on the transcript whose messages are the records
  \<open>{type: "user", content: "Hello"}\<close> and \<open>{type: "assistant", content: "This is the answer"}\<close>,
  in that order, the extractor returns exactly \<open>"This is the answer"\<close>.
\<close>

theorem extract_type_keyed_records:
  "extract_assistant_text
     (PyDict [(''messages'', PyList
        [PyDict [(''type'', PyStr ''user''), (''content'', PyStr ''Hello'')],
         PyDict [(''type'', PyStr ''assistant''), (''content'', PyStr ''This is the answer'')]])])
   = Inr (PyStr ''This is the answer'')"
  by (simp add: extract_assistant_text_def extract_body_def except_Exception_def field_defs
      returns_here_def)



text \<open>
  Claim C5: for every result value the extractor returns a value and never raises, and a
  message missing the type field or the content field (whether an object, a record or
  anything else) does not match: the scan passes over it.
\<close>

theorem extract_total:
  "(\<exists>v. extract_assistant_text result = Inr v)
   \<and> (\<not> has_field msg ''type'' \<or> \<not> has_field msg ''content''
        \<longrightarrow> \<not> returns_here msg \<and> scan_messages (msg # rest) = scan_messages rest)"
proof (intro conjI impI)
  show "\<exists>v. extract_assistant_text result = Inr v"
    by (rule extract_returns)
next
  assume "\<not> has_field msg ''type'' \<or> \<not> has_field msg ''content''"
  then have "msg_mtype msg = PyNone \<or> msg_content msg = PyNone"
    by (auto simp: msg_mtype_def msg_content_def msg_field_missing)
  then show "\<not> returns_here msg" by (auto simp: returns_here_def)
  then show "scan_messages (msg # rest) = scan_messages rest" by simp
qed

text \<open>
  Witness for C5: a result that is an object rather than a record, and a record with no
  content key in front of a matching message.
\<close>

theorem extract_total_witness:
  "(\<exists>v. extract_assistant_text (PyObj [(''messages'', PyList [])]) = Inr v)
   \<and> \<not> has_field (PyDict [(''type'', PyStr ''ai'')]) ''content''
   \<and> \<not> returns_here (PyDict [(''type'', PyStr ''ai'')])
   \<and> scan_messages [PyDict [(''type'', PyStr ''ai'')], PyObj [(''type'', PyStr ''ai''), (''content'', PyStr ''kept'')]]
       = scan_messages [PyObj [(''type'', PyStr ''ai''), (''content'', PyStr ''kept'')]]"
  using extract_total
    [of "PyObj [(''messages'', PyList [])]" "PyDict [(''type'', PyStr ''ai'')]"
        "[PyObj [(''type'', PyStr ''ai''), (''content'', PyStr ''kept'')]]"]
  by simp

section \<open>Properties of the session router\<close>

lemma wf_drawn:
  "wf_sessions uuid4 self \<Longrightarrow> session_ids self s = Some t \<Longrightarrow> \<exists>k < uuid_calls self. t = uuid4 k"
  unfolding wf_sessions_def by blast

lemma wf_one_key:
  "wf_sessions uuid4 self \<Longrightarrow> session_ids self s1 = Some t \<Longrightarrow> session_ids self s2 = Some t
     \<Longrightarrow> s1 = s2"
  unfolding wf_sessions_def by blast

lemma wf_nonempty:
  "uuid_ok uuid4 \<Longrightarrow> wf_sessions uuid4 self \<Longrightarrow> session_ids self s = Some t \<Longrightarrow> t \<noteq> []"
  using wf_drawn [of uuid4 self s t] unfolding uuid_ok_def by auto

lemma wf_fresh:
  assumes "uuid_ok uuid4" "wf_sessions uuid4 self"
  shows "session_ids self s \<noteq> Some (uuid4 (uuid_calls self))"
proof
  assume "session_ids self s = Some (uuid4 (uuid_calls self))"
  with assms(2) obtain k where k: "k < uuid_calls self" "uuid4 (uuid_calls self) = uuid4 k"
    using wf_drawn by blast
  from assms(1) k(2) have "uuid_calls self = k" by (simp add: uuid_ok_def inj_eq)
  with k(1) show False by simp
qed

lemma extends_refl: "extends uuid4 self self"
  by (simp add: extends_def)

lemma extends_trans:
  assumes ab: "extends uuid4 a b" and bc: "extends uuid4 b c"
  shows "extends uuid4 a c"
  unfolding extends_def
proof (intro conjI allI impI)
  show "uuid_calls a \<le> uuid_calls c"
    using ab bc by (simp add: extends_def)
next
  fix s t assume "session_ids a s = Some t"
  with ab bc show "session_ids c s = Some t" by (simp add: extends_def)
next
  fix s t assume c: "session_ids c s = Some t"
  from ab bc have le: "uuid_calls a \<le> uuid_calls b" "uuid_calls b \<le> uuid_calls c"
    by (simp_all add: extends_def)
  from bc c consider "session_ids b s = Some t"
    | k where "uuid_calls b \<le> k" "k < uuid_calls c" "t = uuid4 k"
    unfolding extends_def by blast
  then show "session_ids a s = Some t
       \<or> (\<exists>k. uuid_calls a \<le> k \<and> k < uuid_calls c \<and> t = uuid4 k)"
  proof cases
    case 1
    with ab consider "session_ids a s = Some t"
      | k where "uuid_calls a \<le> k" "k < uuid_calls b" "t = uuid4 k"
      unfolding extends_def by blast
    then show ?thesis
    proof cases
      case 1 then show ?thesis by simp
    next
      case 2
      with le have "uuid_calls a \<le> k \<and> k < uuid_calls c \<and> t = uuid4 k" by simp
      then show ?thesis by blast
    qed
  next
    case 2
    with le have "uuid_calls a \<le> k \<and> k < uuid_calls c \<and> t = uuid4 k" by simp
    then show ?thesis by blast
  qed
qed

lemma wf_sessions_bump:
  assumes "wf_sessions uuid4 self"
  shows "wf_sessions uuid4 (self\<lparr>uuid_calls := Suc (uuid_calls self)\<rparr>)"
  unfolding wf_sessions_def
proof (intro conjI allI impI)
  fix s t assume "session_ids (self\<lparr>uuid_calls := Suc (uuid_calls self)\<rparr>) s = Some t"
  then have "session_ids self s = Some t" by simp
  with assms obtain k where "k < uuid_calls self" "t = uuid4 k" using wf_drawn by blast
  then have "k < uuid_calls (self\<lparr>uuid_calls := Suc (uuid_calls self)\<rparr>) \<and> t = uuid4 k" by simp
  then show "\<exists>k<uuid_calls (self\<lparr>uuid_calls := Suc (uuid_calls self)\<rparr>). t = uuid4 k" by blast
next
  fix s1 s2 t
  assume "session_ids (self\<lparr>uuid_calls := Suc (uuid_calls self)\<rparr>) s1 = Some t \<and>
          session_ids (self\<lparr>uuid_calls := Suc (uuid_calls self)\<rparr>) s2 = Some t"
  with assms show "s1 = s2" using wf_one_key [of uuid4 self s1 t s2] by simp
qed

lemma new_uuid_step:
  assumes "new_uuid uuid4 self = (t, self')" "wf_sessions uuid4 self"
  shows "wf_sessions uuid4 self' \<and> extends uuid4 self self'
     \<and> t = uuid4 (uuid_calls self) \<and> uuid_calls self' = Suc (uuid_calls self)
     \<and> session_ids self' = session_ids self"
proof -
  from assms(1) have t: "t = uuid4 (uuid_calls self)"
    and s': "self' = self\<lparr>uuid_calls := Suc (uuid_calls self)\<rparr>"
    by (simp_all add: new_uuid_def)
  have "extends uuid4 self self'" using s' by (simp add: extends_def)
  with t s' wf_sessions_bump [OF assms(2)] show ?thesis by simp
qed

lemma record_thread_step:
  assumes ok: "uuid_ok uuid4" and wf: "wf_sessions uuid4 self"
    and r: "record_thread uuid4 self sid = (t, self')"
    and free: "session_ids self sid = None"
  shows "wf_sessions uuid4 self' \<and> extends uuid4 self self'
     \<and> t = uuid4 (uuid_calls self) \<and> uuid_calls self' = Suc (uuid_calls self)
     \<and> session_ids self' = (session_ids self)(sid \<mapsto> t)"
proof -
  from r have t: "t = uuid4 (uuid_calls self)"
    and s': "self' = self\<lparr>uuid_calls := Suc (uuid_calls self),
                         session_ids := (session_ids self)(sid \<mapsto> uuid4 (uuid_calls self))\<rparr>"
    by (auto simp: record_thread_def new_uuid_def)
  have ids: "session_ids self' = (session_ids self)(sid \<mapsto> t)"
    and calls: "uuid_calls self' = Suc (uuid_calls self)"
    using s' t by simp_all
  have w: "wf_sessions uuid4 self'"
    unfolding wf_sessions_def
  proof (intro conjI allI impI)
    fix s u assume a: "session_ids self' s = Some u"
    show "\<exists>k<uuid_calls self'. u = uuid4 k"
    proof (cases "s = sid")
      case True
      with a ids have "u = uuid4 (uuid_calls self)" by (simp add: t)
      with calls have "uuid_calls self < uuid_calls self' \<and> u = uuid4 (uuid_calls self)" by simp
      then show ?thesis by blast
    next
      case False
      with a ids have "session_ids self s = Some u" by simp
      with wf obtain k where "k < uuid_calls self" "u = uuid4 k" using wf_drawn by blast
      with calls have "k < uuid_calls self' \<and> u = uuid4 k" by simp
      then show ?thesis by blast
    qed
  next
    fix s1 s2 u assume a: "session_ids self' s1 = Some u \<and> session_ids self' s2 = Some u"
    show "s1 = s2"
    proof (cases "s1 = sid")
      case True
      with a ids have u: "u = t" by simp
      show ?thesis
      proof (rule ccontr)
        assume "s1 \<noteq> s2"
        with True a ids u have "session_ids self s2 = Some t" by (simp split: if_splits)
        with wf_fresh [OF ok wf, of s2] t show False by simp
      qed
    next
      case False
      with a ids have 1: "session_ids self s1 = Some u" by simp
      show ?thesis
      proof (cases "s2 = sid")
        case True
        with a ids have "u = t" by simp
        with 1 wf_fresh [OF ok wf, of s1] t show ?thesis by simp
      next
        case False
        with a ids have "session_ids self s2 = Some u" by simp
        with 1 wf show ?thesis using wf_one_key by blast
      qed
    qed
  qed
  have e: "extends uuid4 self self'"
    unfolding extends_def
  proof (intro conjI allI impI)
    show "uuid_calls self \<le> uuid_calls self'" using calls by simp
  next
    fix s u assume "session_ids self s = Some u"
    with free ids show "session_ids self' s = Some u" by (cases "s = sid") simp_all
  next
    fix s u assume a: "session_ids self' s = Some u"
    show "session_ids self s = Some u
       \<or> (\<exists>k. uuid_calls self \<le> k \<and> k < uuid_calls self' \<and> u = uuid4 k)"
    proof (cases "s = sid")
      case True
      with a ids t calls
      have "uuid_calls self \<le> uuid_calls self \<and> uuid_calls self < uuid_calls self'
              \<and> u = uuid4 (uuid_calls self)" by simp
      then show ?thesis by blast
    next
      case False
      with a ids show ?thesis by simp
    qed
  qed
  from w e t calls ids show ?thesis by simp
qed

lemma resolve_thread_absent:
  "session_id \<in> {None, Some []} \<Longrightarrow> resolve_thread uuid4 self session_id = new_uuid uuid4 self"
  by (auto simp: resolve_thread_def)

lemma resolve_thread_known:
  "sid \<noteq> [] \<Longrightarrow> session_ids self sid = Some t \<Longrightarrow> t \<noteq> [] \<Longrightarrow>
     resolve_thread uuid4 self (Some sid) = (t, self)"
  by (simp add: resolve_thread_def)

lemma resolve_thread_unknown:
  "sid \<noteq> [] \<Longrightarrow> session_ids self sid = None \<Longrightarrow>
     resolve_thread uuid4 self (Some sid)
       = (uuid4 (uuid_calls self),
          self\<lparr>uuid_calls := Suc (uuid_calls self),
               session_ids := (session_ids self)(sid \<mapsto> uuid4 (uuid_calls self))\<rparr>)"
  by (simp add: resolve_thread_def record_thread_def new_uuid_def)

lemma resolve_thread_step:
  assumes ok: "uuid_ok uuid4" and wf: "wf_sessions uuid4 self"
    and r: "resolve_thread uuid4 self session_id = (t, self')"
  shows "wf_sessions uuid4 self' \<and> extends uuid4 self self'"
proof (cases "session_id \<in> {None, Some []}")
  case True
  with r have "new_uuid uuid4 self = (t, self')" by (simp add: resolve_thread_absent)
  from new_uuid_step [OF this wf] show ?thesis by simp
next
  case False
  then obtain sid where sid: "session_id = Some sid" "sid \<noteq> []" by (cases session_id) auto
  show ?thesis
  proof (cases "session_ids self sid")
    case None
    with sid r have "record_thread uuid4 self sid = (t, self')"
      by (simp add: resolve_thread_def)
    from record_thread_step [OF ok wf this None] show ?thesis by simp
  next
    case (Some u)
    with ok wf have "u \<noteq> []" using wf_nonempty by blast
    with Some sid r have "self' = self" by (simp add: resolve_thread_known)
    with wf show ?thesis by (simp add: extends_refl)
  qed
qed

text \<open>What a resolution returns: the stored id of a known session, or the next draw.\<close>

lemma resolve_thread_result:
  assumes ok: "uuid_ok uuid4" and wf: "wf_sessions uuid4 self"
    and r: "resolve_thread uuid4 self session_id = (t, self')"
  shows "(\<exists>sid. session_id = Some sid \<and> sid \<noteq> [] \<and> session_ids self sid = Some t \<and> self' = self)
       \<or> (t = uuid4 (uuid_calls self) \<and> uuid_calls self' = Suc (uuid_calls self))"
proof (cases "session_id \<in> {None, Some []}")
  case True
  with r have "new_uuid uuid4 self = (t, self')" by (simp add: resolve_thread_absent)
  from new_uuid_step [OF this wf] show ?thesis by simp
next
  case False
  then obtain sid where sid: "session_id = Some sid" "sid \<noteq> []" by (cases session_id) auto
  show ?thesis
  proof (cases "session_ids self sid")
    case None
    with sid r have "record_thread uuid4 self sid = (t, self')"
      by (simp add: resolve_thread_def)
    from record_thread_step [OF ok wf this None] show ?thesis by simp
  next
    case (Some u)
    with ok wf have "u \<noteq> []" using wf_nonempty by blast
    with Some sid r have "self' = self \<and> t = u" by (simp add: resolve_thread_known)
    with Some sid show ?thesis by simp
  qed
qed

lemma resolve_thread_stored:
  assumes ok: "uuid_ok uuid4" and wf: "wf_sessions uuid4 self"
    and r: "resolve_thread uuid4 self (Some sid) = (t, self')" and ne: "sid \<noteq> []"
  shows "session_ids self' sid = Some t"
proof (cases "session_ids self sid")
  case None
  with r ne show ?thesis by (auto simp: resolve_thread_unknown)
next
  case (Some u)
  with ok wf have "u \<noteq> []" using wf_nonempty by blast
  with Some ne r show ?thesis by (auto simp: resolve_thread_known)
qed

text \<open>The object after \<open>process_message\<close>, field by field.\<close>

lemma process_message_not_configured:
  "agent self = None \<Longrightarrow>
     process_message uuid4 self message session_id
       = (Inr \<lparr>role = ASSISTANT, content = PyStr not_configured_text\<rparr>, self)"
  by (simp add: process_message_def)

lemma process_message_configured:
  assumes "agent self = Some ag" "resolve_thread uuid4 self session_id = (t, self1)"
    and "ag message t (memory self1, task_service self1) = (result, (mem, store))"
  shows "process_message uuid4 self message session_id
     = (except_Exception
          (case result of
             Inl e \<Rightarrow> Inl e
           | Inr transcript \<Rightarrow>
               (case extract_assistant_text transcript of
                  Inl e \<Rightarrow> Inl e
                | Inr response_content \<Rightarrow> Inr \<lparr>role = ASSISTANT, content = response_content\<rparr>))
          (\<lambda>e. Inr \<lparr>role = ASSISTANT, content = PyStr error_text\<rparr>),
        self1\<lparr>memory := mem, task_service := store\<rparr>)"
  using assms by (simp add: process_message_def)

lemma process_message_fields:
  "session_ids (snd (process_message uuid4 self message session_id))
     = (if agent self = None then session_ids self
        else session_ids (snd (resolve_thread uuid4 self session_id)))"
  "uuid_calls (snd (process_message uuid4 self message session_id))
     = (if agent self = None then uuid_calls self
        else uuid_calls (snd (resolve_thread uuid4 self session_id)))"
  "agent (snd (process_message uuid4 self message session_id))
     = (if agent self = None then agent self
        else agent (snd (resolve_thread uuid4 self session_id)))"
  "session_locks (snd (process_message uuid4 self message session_id))
     = (if agent self = None then session_locks self
        else session_locks (snd (resolve_thread uuid4 self session_id)))"
  by (simp_all add: process_message_def split: option.splits prod.splits)

lemma wf_sessions_cong:
  "session_ids a = session_ids b \<Longrightarrow> uuid_calls a = uuid_calls b \<Longrightarrow>
     wf_sessions uuid4 a = wf_sessions uuid4 b"
  by (simp add: wf_sessions_def)

lemma extends_cong:
  "session_ids a = session_ids b \<Longrightarrow> uuid_calls a = uuid_calls b \<Longrightarrow>
     extends uuid4 x a = extends uuid4 x b"
  by (simp add: extends_def)

lemma process_message_step:
  assumes ok: "uuid_ok uuid4" and wf: "wf_sessions uuid4 self"
  shows "wf_sessions uuid4 (snd (process_message uuid4 self message session_id))
       \<and> extends uuid4 self (snd (process_message uuid4 self message session_id))"
proof (cases "agent self")
  case None
  with wf show ?thesis by (simp add: process_message_not_configured extends_refl)
next
  case (Some ag)
  obtain t self1 where r: "resolve_thread uuid4 self session_id = (t, self1)"
    by (cases "resolve_thread uuid4 self session_id")
  from resolve_thread_step [OF ok wf r]
  have 1: "wf_sessions uuid4 self1" and 2: "extends uuid4 self self1" by simp_all
  let ?self' = "snd (process_message uuid4 self message session_id)"
  from Some r have "session_ids ?self' = session_ids self1" "uuid_calls ?self' = uuid_calls self1"
    by (simp_all add: process_message_fields)
  with 1 2 show ?thesis
    using wf_sessions_cong [of ?self' self1 uuid4] extends_cong [of ?self' self1 uuid4 self]
    by simp
qed

lemma run_step:
  "uuid_ok uuid4 \<Longrightarrow> wf_sessions uuid4 self \<Longrightarrow>
     wf_sessions uuid4 (run uuid4 self calls) \<and> extends uuid4 self (run uuid4 self calls)"
proof (induction calls arbitrary: self)
  case Nil
  then show ?case by (simp add: extends_refl)
next
  case (Cons call calls)
  let ?next = "snd (process_message uuid4 self (fst call) (snd call))"
  from process_message_step [OF Cons.prems]
  have 1: "wf_sessions uuid4 ?next" and 2: "extends uuid4 self ?next" by simp_all
  from Cons.IH [OF Cons.prems(1) 1]
  have "wf_sessions uuid4 (run uuid4 ?next calls)" "extends uuid4 ?next (run uuid4 ?next calls)"
    by simp_all
  with 2 show ?case using extends_trans by fastforce
qed

lemma init_wf:
  "init svc mem endpoint deployment_name build = Inr self \<Longrightarrow> wf_sessions uuid4 self"
  by (auto simp: init_def except_Exception_def wf_sessions_def Let_def
      split: if_splits sum.splits)

section \<open>Properties of the orchestrator\<close>

lemma example_uuid4_ok: "uuid_ok example_uuid4"
  by (simp add: uuid_ok_def example_uuid4_def inj_def)

lemma resolve_thread_frame:
  "memory (snd (resolve_thread uuid4 self session_id)) = memory self"
  "task_service (snd (resolve_thread uuid4 self session_id)) = task_service self"
  "agent (snd (resolve_thread uuid4 self session_id)) = agent self"
  "session_locks (snd (resolve_thread uuid4 self session_id)) = session_locks self"
  by (simp_all add: resolve_thread_def record_thread_def new_uuid_def split: option.splits)

text \<open>
  Claim C1, as stated: whatever exception the reasoning-engine invocation raises,
  \<open>process_message\<close> never propagates an exception. It does: the handler is
  \<open>except Exception\<close>, and a cancellation of the awaited invocation raises
  \<open>asyncio.CancelledError\<close>, which derives from \<open>BaseException\<close> only and leaves the call.
\<close>

theorem cancellation_propagates_counterexample:
  "fst (process_message example_uuid4
          (example_agent (Some (raising_engine (Raised CancelledError ''''))))
          ''hello'' (Some ''s1''))
     = Inl (Raised CancelledError '''')"
  by (simp add: process_message_def example_agent_def raising_engine_def except_Exception_def
      split: prod.splits)

text \<open>
  Claim C1, amended: for every message and every optional session id, \<open>process_message\<close>
  returns the fixed not-configured reply when there is no agent; otherwise, when the
  invocation raises an exception derived from \<open>Exception\<close> it returns the fixed generic
  failure reply, when the invocation returns a transcript it returns a reply with the
  extracted text (the extraction itself never raises), and every reply has the role
  \<open>assistant\<close>. Only an exception that does not derive from \<open>Exception\<close> leaves the call.
\<close>

theorem process_message_always_replies:
  "(agent self = None
      \<longrightarrow> fst (process_message uuid4 self message session_id)
            = Inr \<lparr>role = ASSISTANT, content = PyStr not_configured_text\<rparr>)
   \<and> (agent self = Some ag
        \<and> fst (ag message (fst (resolve_thread uuid4 self session_id))
                 (memory self, task_service self)) = result
      \<longrightarrow> (case result of
             Inl e \<Rightarrow>
               if derives_Exception (exc_cls e)
               then fst (process_message uuid4 self message session_id)
                      = Inr \<lparr>role = ASSISTANT, content = PyStr error_text\<rparr>
               else fst (process_message uuid4 self message session_id) = Inl e
           | Inr transcript \<Rightarrow>
               (\<exists>c. extract_assistant_text transcript = Inr c
                  \<and> fst (process_message uuid4 self message session_id)
                      = Inr \<lparr>role = ASSISTANT, content = c\<rparr>)))
   \<and> Role_value ASSISTANT = ''assistant''"
proof (intro conjI impI)
  assume "agent self = None"
  then show "fst (process_message uuid4 self message session_id)
            = Inr \<lparr>role = ASSISTANT, content = PyStr not_configured_text\<rparr>"
    by (simp add: process_message_not_configured)
next
  assume a: "agent self = Some ag
        \<and> fst (ag message (fst (resolve_thread uuid4 self session_id))
                 (memory self, task_service self)) = result"
  obtain t self1 where r: "resolve_thread uuid4 self session_id = (t, self1)"
    by (cases "resolve_thread uuid4 self session_id")
  then have same: "memory self1 = memory self" "task_service self1 = task_service self"
    using resolve_thread_frame [of uuid4 self session_id] by simp_all
  obtain res mem store where
    inv: "ag message t (memory self1, task_service self1) = (res, (mem, store))"
    by (cases "ag message t (memory self1, task_service self1)") auto
  with a r same have res: "res = result" by simp
  have pm: "fst (process_message uuid4 self message session_id)
     = except_Exception
          (case result of
             Inl e \<Rightarrow> Inl e
           | Inr transcript \<Rightarrow>
               (case extract_assistant_text transcript of
                  Inl e \<Rightarrow> Inl e
                | Inr response_content \<Rightarrow> Inr \<lparr>role = ASSISTANT, content = response_content\<rparr>))
          (\<lambda>e. Inr \<lparr>role = ASSISTANT, content = PyStr error_text\<rparr>)"
    using process_message_configured [OF conjunct1 [OF a] r inv] res by simp
  show "case result of
             Inl e \<Rightarrow>
               if derives_Exception (exc_cls e)
               then fst (process_message uuid4 self message session_id)
                      = Inr \<lparr>role = ASSISTANT, content = PyStr error_text\<rparr>
               else fst (process_message uuid4 self message session_id) = Inl e
           | Inr transcript \<Rightarrow>
               (\<exists>c. extract_assistant_text transcript = Inr c
                  \<and> fst (process_message uuid4 self message session_id)
                      = Inr \<lparr>role = ASSISTANT, content = c\<rparr>)"
  proof (cases result)
    case (Inl e)
    with pm show ?thesis by (simp add: except_Exception_def)
  next
    case (Inr transcript)
    obtain c where "extract_assistant_text transcript = Inr c"
      using extract_returns by blast
    with Inr pm show ?thesis by (simp add: except_Exception_def)
  qed
next
  show "Role_value ASSISTANT = ''assistant''" by simp
qed

text \<open>
  Witness for C1: an object without agent, one whose engine raises \<open>RuntimeError\<close>, and
  one whose engine echoes the message.
\<close>

theorem process_message_always_replies_witness:
  "fst (process_message example_uuid4 (example_agent None) ''hello'' (Some ''s1''))
     = Inr \<lparr>role = ASSISTANT, content = PyStr not_configured_text\<rparr>
   \<and> fst (process_message example_uuid4
            (example_agent (Some (raising_engine (Raised RuntimeError ''model unavailable''))))
            ''hello'' (Some ''s1''))
     = Inr \<lparr>role = ASSISTANT, content = PyStr error_text\<rparr>
   \<and> (\<exists>c. fst (process_message example_uuid4 (example_agent (Some echo_engine)) ''hello'' (Some ''s1''))
     = Inr \<lparr>role = ASSISTANT, content = c\<rparr>)"
  using
    process_message_always_replies
      [of "example_agent None" example_uuid4 "''hello''" "Some ''s1''" echo_engine "Inr PyNone"]
    process_message_always_replies
      [of "example_agent (Some (raising_engine (Raised RuntimeError ''model unavailable'')))"
          example_uuid4 "''hello''" "Some ''s1''"
          "raising_engine (Raised RuntimeError ''model unavailable'')"
          "Inl (Raised RuntimeError ''model unavailable'')"]
    process_message_always_replies
      [of "example_agent (Some echo_engine)" example_uuid4 "''hello''" "Some ''s1''" echo_engine
          "fst (echo_engine ''hello'' (fst (resolve_thread example_uuid4 (example_agent (Some echo_engine)) (Some ''s1''))) ((), ()))"]
  by (auto simp add: example_agent_def raising_engine_def echo_engine_def)

lemma example_init:
  "init () () (Some ''https://example.openai.azure.com'') (Some ''gpt-4o'') (Inr echo_engine)
     = Inr (example_agent (Some echo_engine))"
  by (simp add: init_def except_Exception_def example_agent_def)

lemma example_first_resolution:
  "resolve_thread example_uuid4 (example_agent (Some echo_engine)) (Some ''s1'')
     = (''u'', (example_agent (Some echo_engine))
                 \<lparr>uuid_calls := 1, session_ids := [''s1'' \<mapsto> ''u'']\<rparr>)"
  by (simp add: resolve_thread_unknown example_agent_def example_uuid4_def)

text \<open>
  Claim C2, as stated: for every session identifier, two sequential thread resolutions
  yield the same thread id. For the empty string they do not: \<open>if session_id\<close> treats it
  as no session id, each resolution draws a new identifier and nothing is stored.
\<close>

theorem empty_session_id_not_stable_counterexample:
  "fst (resolve_thread example_uuid4 (example_agent (Some echo_engine)) (Some ''''))
   \<noteq> fst (resolve_thread example_uuid4
          (snd (resolve_thread example_uuid4 (example_agent (Some echo_engine)) (Some '''')))
          (Some ''''))"
  by (simp add: resolve_thread_def new_uuid_def example_agent_def example_uuid4_def)

text \<open>
  Claim C2, amended: with an identifier source that never repeats and never gives an
  empty text, on an object built by \<open>__init__\<close> and after any history of calls: for every
  non-empty session identifier, once it is resolved its entry stays as written through
  any further calls and a later resolution returns the same thread id without changing
  the object; a resolution of any other session identifier, then or later, returns a
  different thread id; and no thread id is stored under two session identifiers.
\<close>

theorem session_mapping_stable_injective:
  assumes ok: "uuid_ok uuid4"
    and start: "init svc mem endpoint deployment_name build = Inr self0"
    and now: "self = run uuid4 self0 calls"
    and r1: "resolve_thread uuid4 self (Some s1) = (t1, self1)"
    and later: "self2 = run uuid4 self1 further"
  shows "(s1 \<noteq> [] \<longrightarrow> session_ids self2 s1 = Some t1
                     \<and> resolve_thread uuid4 self2 (Some s1) = (t1, self2))
       \<and> (s2 \<noteq> s1 \<longrightarrow> fst (resolve_thread uuid4 self2 (Some s2)) \<noteq> t1)
       \<and> (\<forall>a b t. session_ids self2 a = Some t \<and> session_ids self2 b = Some t \<longrightarrow> a = b)"
proof -
  from init_wf [OF start] have "wf_sessions uuid4 self0" .
  from run_step [OF ok this, of calls] now have wf: "wf_sessions uuid4 self" by simp
  from resolve_thread_step [OF ok wf r1]
  have wf1: "wf_sessions uuid4 self1" and e1: "extends uuid4 self self1" by simp_all
  from run_step [OF ok wf1, of further] later
  have wf2: "wf_sessions uuid4 self2" and e2: "extends uuid4 self1 self2" by simp_all
  have stable: "s1 \<noteq> [] \<longrightarrow> session_ids self2 s1 = Some t1
                     \<and> resolve_thread uuid4 self2 (Some s1) = (t1, self2)"
  proof
    assume ne: "s1 \<noteq> []"
    from resolve_thread_stored [OF ok wf r1 ne] have "session_ids self1 s1 = Some t1" .
    with e2 have st: "session_ids self2 s1 = Some t1" by (simp add: extends_def)
    with ok wf2 have "t1 \<noteq> []" using wf_nonempty by blast
    with st ne show "session_ids self2 s1 = Some t1
        \<and> resolve_thread uuid4 self2 (Some s1) = (t1, self2)"
      by (simp add: resolve_thread_known)
  qed
  have inj: "\<And>a b. uuid4 a = uuid4 b \<Longrightarrow> a = b"
    using ok by (simp add: uuid_ok_def inj_eq)
  have distinct: "s2 \<noteq> s1 \<longrightarrow> fst (resolve_thread uuid4 self2 (Some s2)) \<noteq> t1"
  proof
    assume ne: "s2 \<noteq> s1"
    obtain t2 self3 where r2: "resolve_thread uuid4 self2 (Some s2) = (t2, self3)"
      by (cases "resolve_thread uuid4 self2 (Some s2)")
    \<comment> \<open>Where \<open>t1\<close> comes from: stored under \<open>s1\<close>, or the draw numbered \<open>uuid_calls self\<close>.\<close>
    from resolve_thread_result [OF ok wf r1]
    consider (known) "s1 \<noteq> []" "session_ids self s1 = Some t1" "self1 = self"
      | (drawn) "t1 = uuid4 (uuid_calls self)" "uuid_calls self1 = Suc (uuid_calls self)"
      by auto
    then have "t2 \<noteq> t1"
    proof cases
      case known
      from known e2 have st1: "session_ids self2 s1 = Some t1" by (simp add: extends_def)
      from resolve_thread_result [OF ok wf2 r2]
      consider (k2) "session_ids self2 s2 = Some t2" | (d2) "t2 = uuid4 (uuid_calls self2)"
        by auto
      then show ?thesis
      proof cases
        case k2
        with st1 ne wf2 show ?thesis using wf_one_key by blast
      next
        case d2
        with st1 wf_fresh [OF ok wf2, of s1] show ?thesis by auto
      qed
    next
      case drawn
      from e2 drawn have le: "Suc (uuid_calls self) \<le> uuid_calls self2" by (simp add: extends_def)
      from resolve_thread_result [OF ok wf2 r2]
      consider (k2) "session_ids self2 s2 = Some t2" | (d2) "t2 = uuid4 (uuid_calls self2)"
        by auto
      then show ?thesis
      proof cases
        case d2
        with drawn le inj show ?thesis by fastforce
      next
        case k2
        \<comment> \<open>An entry of \<open>self2\<close> is an entry of \<open>self1\<close> or holds a later draw.\<close>
        from e2 k2 consider (old) "session_ids self1 s2 = Some t2"
          | (new) k where "uuid_calls self1 \<le> k" "t2 = uuid4 k"
          unfolding extends_def by blast
        then show ?thesis
        proof cases
          case new
          with drawn inj show ?thesis by fastforce
        next
          case old
          from e1 old consider (older) "session_ids self s2 = Some t2"
            | (mine) "session_ids self s2 = None"
            unfolding extends_def by (cases "session_ids self s2") auto
          then show ?thesis
          proof cases
            case older
            with drawn wf_fresh [OF ok wf, of s2] show ?thesis by auto
          next
            case mine
            \<comment> \<open>\<open>s2\<close> entered the map in this very resolution: then \<open>s2 = s1\<close>.\<close>
            show ?thesis
            proof (cases "s1 = []")
              case True
              with r1 have "session_ids self1 = session_ids self"
                by (auto simp: resolve_thread_absent new_uuid_def)
              with old mine show ?thesis by simp
            next
              case False
              show ?thesis
              proof (cases "session_ids self s1")
                case None
                with False r1 have "session_ids self1 = (session_ids self)(s1 \<mapsto> t1)"
                  by (auto simp: resolve_thread_unknown)
                with old mine ne show ?thesis by simp
              next
                case (Some u)
                with ok wf have "u \<noteq> []" using wf_nonempty by blast
                with Some False r1 have "self1 = self" by (simp add: resolve_thread_known)
                with old mine show ?thesis by simp
              qed
            qed
          qed
        qed
      qed
    qed
    with r2 show "fst (resolve_thread uuid4 self2 (Some s2)) \<noteq> t1" by simp
  qed
  have one: "\<forall>a b t. session_ids self2 a = Some t \<and> session_ids self2 b = Some t \<longrightarrow> a = b"
    using wf2 wf_one_key by blast
  from stable distinct one show ?thesis by blast
qed

text \<open>
  Witness for C2: session \<open>s1\<close> is resolved first on a configured object, two more calls
  follow (one for session \<open>s2\<close>, one without session id), and then \<open>s1\<close> and \<open>s2\<close> are
  resolved again.
\<close>

theorem session_mapping_stable_injective_witness:
  "session_ids
     (run example_uuid4
        ((example_agent (Some echo_engine))\<lparr>uuid_calls := 1, session_ids := [''s1'' \<mapsto> ''u'']\<rparr>)
        [(''hello'', Some ''s2''), (''again'', None)]) ''s1'' = Some ''u''
   \<and> fst (resolve_thread example_uuid4
        (run example_uuid4
          ((example_agent (Some echo_engine))\<lparr>uuid_calls := 1, session_ids := [''s1'' \<mapsto> ''u'']\<rparr>)
          [(''hello'', Some ''s2''), (''again'', None)]) (Some ''s1'')) = ''u''
   \<and> fst (resolve_thread example_uuid4
        (run example_uuid4
          ((example_agent (Some echo_engine))\<lparr>uuid_calls := 1, session_ids := [''s1'' \<mapsto> ''u'']\<rparr>)
          [(''hello'', Some ''s2''), (''again'', None)]) (Some ''s2'')) \<noteq> ''u''"
  using session_mapping_stable_injective
    [OF example_uuid4_ok example_init, of "example_agent (Some echo_engine)" "[]" "''s1''" "''u''"
       "(example_agent (Some echo_engine))\<lparr>uuid_calls := 1, session_ids := [''s1'' \<mapsto> ''u'']\<rparr>"
       "run example_uuid4
          ((example_agent (Some echo_engine))\<lparr>uuid_calls := 1, session_ids := [''s1'' \<mapsto> ''u'']\<rparr>)
          [(''hello'', Some ''s2''), (''again'', None)]"
       "[(''hello'', Some ''s2''), (''again'', None)]" "''s2''"]
    example_first_resolution
  by simp



text \<open>
  Claim C10, as stated: every call with a previously unknown session id records the new
  mapping, and a later call with the same session id reuses the thread id. With the
  empty string as session id nothing is recorded, and the next call draws another
  thread id.
\<close>

theorem empty_session_id_not_recorded_counterexample:
  "session_ids
     (snd (process_message example_uuid4
        (example_agent (Some (raising_engine (Raised RuntimeError ''model unavailable''))))
        ''hello'' (Some ''''))) '''' = None
   \<and> fst (resolve_thread example_uuid4
        (snd (process_message example_uuid4
          (example_agent (Some (raising_engine (Raised RuntimeError ''model unavailable''))))
          ''hello'' (Some ''''))) (Some ''''))
      \<noteq> fst (resolve_thread example_uuid4
          (example_agent (Some (raising_engine (Raised RuntimeError ''model unavailable''))))
          (Some ''''))"
  by (simp add: process_message_def resolve_thread_def new_uuid_def example_agent_def
      raising_engine_def example_uuid4_def split: prod.splits)

text \<open>
  Claim C10, amended: on a configured object, for every call with a non-empty,
  previously unknown session id, the mapping to a newly drawn thread id is in the object
  when the thread resolution ends, before the engine is invoked with that thread id;
  whatever the invocation returns or raises, the object after the call is that one with
  the engine's own effects on the memory and the store, so the mapping is kept; when the
  invocation raises an exception derived from \<open>Exception\<close> the reply is the generic
  failure reply; and a later resolution of the same session id returns the thread id of
  this turn and changes nothing.
\<close>

theorem mapping_recorded_before_invocation_and_kept:
  assumes cfg: "agent self = Some ag"
    and ne: "sid \<noteq> []"
    and new: "session_ids self sid = None"
    and drawn: "uuid4 (uuid_calls self) \<noteq> []"
    and inv: "ag message (uuid4 (uuid_calls self)) (memory self, task_service self)
                = (result, (mem, store))"
  shows "resolve_thread uuid4 self (Some sid)
           = (uuid4 (uuid_calls self),
              self\<lparr>uuid_calls := Suc (uuid_calls self),
                   session_ids := (session_ids self)(sid \<mapsto> uuid4 (uuid_calls self))\<rparr>)
       \<and> snd (process_message uuid4 self message (Some sid))
           = self\<lparr>uuid_calls := Suc (uuid_calls self),
                  session_ids := (session_ids self)(sid \<mapsto> uuid4 (uuid_calls self)),
                  memory := mem, task_service := store\<rparr>
       \<and> (\<forall>e. result = Inl e \<and> derives_Exception (exc_cls e) \<longrightarrow>
             fst (process_message uuid4 self message (Some sid))
               = Inr \<lparr>role = ASSISTANT, content = PyStr error_text\<rparr>)
       \<and> resolve_thread uuid4 (snd (process_message uuid4 self message (Some sid))) (Some sid)
           = (uuid4 (uuid_calls self), snd (process_message uuid4 self message (Some sid)))"
proof -
  let ?t = "uuid4 (uuid_calls self)"
  let ?self1 = "self\<lparr>uuid_calls := Suc (uuid_calls self),
                      session_ids := (session_ids self)(sid \<mapsto> ?t)\<rparr>"
  have r: "resolve_thread uuid4 self (Some sid) = (?t, ?self1)"
    using ne new by (rule resolve_thread_unknown)
  from inv have inv1: "ag message ?t (memory ?self1, task_service ?self1) = (result, (mem, store))"
    by simp
  note pm = process_message_configured [OF cfg r inv1]
  have st: "snd (process_message uuid4 self message (Some sid))
              = ?self1\<lparr>memory := mem, task_service := store\<rparr>"
    using pm by simp
  have err: "\<forall>e. result = Inl e \<and> derives_Exception (exc_cls e) \<longrightarrow>
             fst (process_message uuid4 self message (Some sid))
               = Inr \<lparr>role = ASSISTANT, content = PyStr error_text\<rparr>"
    using pm by (auto simp: except_Exception_def)
  have again: "resolve_thread uuid4 (?self1\<lparr>memory := mem, task_service := store\<rparr>) (Some sid)
           = (?t, ?self1\<lparr>memory := mem, task_service := store\<rparr>)"
    using ne drawn by (intro resolve_thread_known) simp_all
  from r st err again show ?thesis by simp
qed

text \<open>
  Witness for C10: the engine raises \<open>RuntimeError\<close> on the first message of session
  \<open>s1\<close>.
\<close>

theorem mapping_recorded_before_invocation_and_kept_witness:
  "session_ids
     (snd (process_message example_uuid4
        (example_agent (Some (raising_engine (Raised RuntimeError ''model unavailable''))))
        ''hello'' (Some ''s1''))) ''s1'' = Some ''u''
   \<and> fst (process_message example_uuid4
        (example_agent (Some (raising_engine (Raised RuntimeError ''model unavailable''))))
        ''hello'' (Some ''s1''))
       = Inr \<lparr>role = ASSISTANT, content = PyStr error_text\<rparr>
   \<and> fst (resolve_thread example_uuid4
        (snd (process_message example_uuid4
          (example_agent (Some (raising_engine (Raised RuntimeError ''model unavailable''))))
          ''hello'' (Some ''s1''))) (Some ''s1'')) = ''u''"
  using mapping_recorded_before_invocation_and_kept
    [of "example_agent (Some (raising_engine (Raised RuntimeError ''model unavailable'')))"
        "raising_engine (Raised RuntimeError ''model unavailable'')" "''s1''" example_uuid4
        "''hello''" "Inl (Raised RuntimeError ''model unavailable'')" "()" "()"]
  by (auto simp add: example_agent_def raising_engine_def example_uuid4_def)

section \<open>Properties of the tools\<close>



text \<open>
  Claim C8: when the task service answers that the id is absent (no task for
  \<open>get_task_by_id\<close> and \<open>update_task\<close>, \<open>False\<close> for \<open>delete_task\<close>), the tools
  \<open>getTask\<close>, \<open>updateTask\<close> and \<open>deleteTask\<close> return the text
  \<open>Task with ID <id> not found.\<close> and do not raise; when the service lists no task,
  \<open>getTasks\<close> returns the text \<open>No tasks found.\<close>.
\<close>

theorem tools_report_expected_outcomes_as_text:
  "(fst (get_task_by_id svc i store) = Inr None
      \<longrightarrow> fst (get_task svc i store) = Inr (''Task with ID '' @ str_int i @ '' not found.''))
   \<and> (fst (update_task svc i ttl c store) = Inr None
      \<longrightarrow> fst (update_task_tool svc i ttl c store)
            = Inr (''Task with ID '' @ str_int i @ '' not found.''))
   \<and> (fst (delete_task svc i store) = Inr False
      \<longrightarrow> fst (delete_task_tool svc i store)
            = Inr (''Task with ID '' @ str_int i @ '' not found.''))
   \<and> (fst (get_all_tasks svc store) = Inr []
      \<longrightarrow> fst (get_tasks svc store) = Inr ''No tasks found.'')"
  by (auto simp: get_task_def update_task_tool_def delete_task_tool_def get_tasks_def
      split: prod.splits sum.splits option.splits)

lemma str_int_7: "str_int 7 = ''7''"
  by (simp add: str_int_def str_nat.simps [of 7] digit_char_def)

text \<open>
  Witness for C8: id 7 is asked of a store that holds only task 1, and the list is asked
  of an empty store.
\<close>

theorem tools_report_expected_outcomes_as_text_witness:
  "fst (get_task list_task_service 7 [\<lparr>task_id = 1, title = ''buy milk'', isComplete = False\<rparr>])
     = Inr ''Task with ID 7 not found.''
   \<and> fst (update_task_tool list_task_service 7 (Some ''buy bread'') None
           [\<lparr>task_id = 1, title = ''buy milk'', isComplete = False\<rparr>])
     = Inr ''Task with ID 7 not found.''
   \<and> fst (delete_task_tool list_task_service 7
           [\<lparr>task_id = 1, title = ''buy milk'', isComplete = False\<rparr>])
     = Inr ''Task with ID 7 not found.''
   \<and> fst (get_tasks list_task_service []) = Inr ''No tasks found.''"
  using
    tools_report_expected_outcomes_as_text
      [of list_task_service 7 "[\<lparr>task_id = 1, title = ''buy milk'', isComplete = False\<rparr>]"
          "Some ''buy bread''" None]
    tools_report_expected_outcomes_as_text [of list_task_service 7 "[]" None None]
  by (simp add: list_task_service_def str_int_7)

end
